theory Spec2Isabelle
  imports Main
begin

section \<open>JavaScript values of the frontend\<close>

text \<open>
  The frontend (\<^verbatim>\<open>frontend/src/App.jsx\<close>, \<^verbatim>\<open>frontend/src/components/OptionsPanel.jsx\<close>)
  keeps the conversion options in one JavaScript object whose properties are booleans
  and one number. A property that is absent reads as \<^verbatim>\<open>undefined\<close>, and
  \<^verbatim>\<open>parseInt\<close> may return \<^verbatim>\<open>NaN\<close>. Numbers are modelled by \<open>int\<close>: every number
  that occurs is an integer far below \<open>2^53\<close>, where JavaScript's doubles, \<^verbatim>\<open>parseInt\<close>
  and \<^verbatim>\<open>toString\<close> are exact.
\<close>

datatype jsval = JUndefined | JBool bool | JNum int | JNaN

text \<open>A plain object: property name to value.\<close>

type_synonym jsobj = "string \<rightharpoonup> jsval"

text \<open>Property read \<^verbatim>\<open>obj[key]\<close>.\<close>

definition js_get :: "jsobj \<Rightarrow> string \<Rightarrow> jsval" where
  "js_get obj k = (case obj k of None \<Rightarrow> JUndefined | Some v \<Rightarrow> v)"

text \<open>Logical not \<^verbatim>\<open>!v\<close>: true exactly on the falsy values.\<close>

fun js_not :: "jsval \<Rightarrow> jsval" where
  "js_not JUndefined = JBool True"
| "js_not (JBool b) = JBool (\<not> b)"
| "js_not (JNum n) = JBool (n = 0)"
| "js_not JNaN = JBool True"

subsection \<open>Number to string\<close>

definition digit_char :: "nat \<Rightarrow> char" where
  "digit_char d = char_of (of_char CHR ''0'' + d :: nat)"

text \<open>Decimal digits of a natural number, most significant first.\<close>

function dec_digits :: "nat \<Rightarrow> nat list \<Rightarrow> nat list" where
  "dec_digits n acc = (if n < 10 then n # acc else dec_digits (n div 10) (n mod 10 # acc))"
  by pat_completeness auto
termination
  by (relation "measure fst") auto

declare dec_digits.simps [simp del]

definition show_nat :: "nat \<Rightarrow> string" where
  "show_nat n = map digit_char (dec_digits n [])"

definition number_toString :: "int \<Rightarrow> string" where
  "number_toString n = (if n < 0 then CHR ''-'' # show_nat (nat (- n)) else show_nat (nat n))"

text \<open>\<^verbatim>\<open>v.toString()\<close>; on \<^verbatim>\<open>undefined\<close> the call throws a TypeError (\<open>None\<close>).\<close>

fun js_toString :: "jsval \<Rightarrow> string option" where
  "js_toString JUndefined = None"
| "js_toString (JBool b) = Some (if b then ''true'' else ''false'')"
| "js_toString (JNum n) = Some (number_toString n)"
| "js_toString JNaN = Some ''NaN''"

subsection \<open>\<^verbatim>\<open>parseInt\<close> with no radix argument\<close>

text \<open>
  ECMAScript's \<^verbatim>\<open>parseInt(string)\<close>: leading white space is dropped, one sign is read,
  a \<^verbatim>\<open>0x\<close>/\<^verbatim>\<open>0X\<close> prefix selects radix 16 (radix 10 otherwise), the longest prefix of
  digits of that radix is the number, and no digit at all gives \<^verbatim>\<open>NaN\<close>.
\<close>

definition is_ws :: "char \<Rightarrow> bool" where
  "is_ws c = (c \<in> set [CHR 0x09, CHR 0x0A, CHR 0x0B, CHR 0x0C, CHR 0x0D, CHR '' ''])"

definition digit_val :: "char \<Rightarrow> nat option" where
  "digit_val c =
     (let k = (of_char c :: nat) in
      if 48 \<le> k \<and> k \<le> 57 then Some (k - 48)
      else if 97 \<le> k \<and> k \<le> 122 then Some (k - 87)
      else if 65 \<le> k \<and> k \<le> 90 then Some (k - 55)
      else None)"

definition is_radix_digit :: "nat \<Rightarrow> char \<Rightarrow> bool" where
  "is_radix_digit R c = (case digit_val c of None \<Rightarrow> False | Some v \<Rightarrow> v < R)"

definition radix_value :: "nat \<Rightarrow> string \<Rightarrow> nat" where
  "radix_value R Z = foldl (\<lambda>a c. a * R + the (digit_val c)) 0 Z"

fun strip_sign :: "string \<Rightarrow> bool \<times> string" where
  "strip_sign [] = (False, [])"
| "strip_sign (c # cs) =
     (if c = CHR ''-'' then (True, cs) else if c = CHR ''+'' then (False, cs) else (False, c # cs))"

fun strip_radix_prefix :: "string \<Rightarrow> nat \<times> string" where
  "strip_radix_prefix (a # b # cs) =
     (if a = CHR ''0'' \<and> (b = CHR ''x'' \<or> b = CHR ''X'') then (16, cs) else (10, a # b # cs))"
| "strip_radix_prefix cs = (10, cs)"

definition parseInt :: "string \<Rightarrow> jsval" where
  "parseInt s =
     (let (neg, S) = strip_sign (dropWhile is_ws s);
          (R, S') = strip_radix_prefix S;
          Z = takeWhile (is_radix_digit R) S'
      in if Z = [] then JNaN
         else JNum (if neg then - int (radix_value R Z) else int (radix_value R Z)))"

section \<open>The options panel and the application state\<close>

text \<open>
  \<^verbatim>\<open>optionsList\<close> of \<^verbatim>\<open>OptionsPanel.jsx\<close>: the six toggle buttons (the icon component
  of each entry plays no role here and is left out).
\<close>

record option_entry =
  key :: string
  label :: string
  description :: string

definition optionsList :: "option_entry list" where
  "optionsList =
     [\<lparr>key = ''include_formulas'', label = ''Include Formulas'',
        description = ''Extract formula expressions and dependencies''\<rparr>,
      \<lparr>key = ''include_cells'', label = ''Include Cell Map'',
        description = ''Full cell-by-cell data with types''\<rparr>,
      \<lparr>key = ''include_comments'', label = ''Comments & Links'',
        description = ''Extract comments and hyperlinks''\<rparr>,
      \<lparr>key = ''include_named_ranges'', label = ''Named Ranges'',
        description = ''Include workbook named ranges''\<rparr>,
      \<lparr>key = ''include_excel_tables'', label = ''Excel Tables'',
        description = ''Extract structured table data''\<rparr>,
      \<lparr>key = ''include_inferred_sections'', label = ''Infer Text Sections'',
        description = ''Auto-detect text regions''\<rparr>]"

text \<open>
  The chunk size slider: \<^verbatim>\<open><input type="range" min="100" max="2000" step="50" ...>\<close>.
\<close>

record range_input =
  rmin :: int
  rmax :: int
  rstep :: int

definition chunk_slider :: range_input where
  "chunk_slider = \<lparr>rmin = 100, rmax = 2000, rstep = 50\<rparr>"

text \<open>
  The value a range input holds after the user aims at position \<open>r\<close>: the browser clamps
  it to \<open>[min, max]\<close> and rounds it to the nearest step from \<open>min\<close> (ties upwards, never
  beyond \<open>max\<close>). This is the value sanitisation of the HTML standard for
  \<^verbatim>\<open>type="range"\<close>; \<^verbatim>\<open>e.target.value\<close> is that number as a string.
\<close>

definition range_value :: "range_input \<Rightarrow> int \<Rightarrow> int" where
  "range_value ri r =
     (let v = (if r < rmin ri then rmin ri else if rmax ri < r then rmax ri else r);
          k = (v - rmin ri + rstep ri div 2) div rstep ri;
          s = rmin ri + k * rstep ri
      in if rmax ri < s then s - rstep ri else s)"

definition target_value :: "range_input \<Rightarrow> int \<Rightarrow> string" where
  "target_value ri r = number_toString (range_value ri r)"

datatype output_mode = Preview | Download

text \<open>
  The state of \<^verbatim>\<open>App\<close> that the conversion request depends on: the selected file
  (\<^verbatim>\<open>file\<close>, by its name), the options object and the output mode. \<open>sent\<close> lists the
  form data of every request posted to \<^verbatim>\<open>/convert\<close> so far, oldest first.
\<close>

type_synonym form_data = "(string \<times> string) list"

record app_state =
  selectedFile :: "string option"
  options :: jsobj
  outputMode :: output_mode
  sent :: "form_data list"

text \<open>The initial \<^verbatim>\<open>useState\<close> values (\<^verbatim>\<open>App.jsx\<close>, lines 36 to 46).\<close>

definition initial_options :: jsobj where
  "initial_options =
     [''include_formulas'' \<mapsto> JBool True,
      ''include_cells'' \<mapsto> JBool True,
      ''include_comments'' \<mapsto> JBool True,
      ''include_named_ranges'' \<mapsto> JBool True,
      ''include_excel_tables'' \<mapsto> JBool True,
      ''include_inferred_sections'' \<mapsto> JBool True,
      ''chunk_max_cells'' \<mapsto> JNum 400]"

definition initial_state :: app_state where
  "initial_state = \<lparr>selectedFile = None, options = initial_options, outputMode = Preview, sent = []\<rparr>"

text \<open>\<^verbatim>\<open>setOptions(prev => ({ ...prev, [key]: value }))\<close>\<close>

definition handleOptionChange :: "string \<Rightarrow> jsval \<Rightarrow> jsobj \<Rightarrow> jsobj" where
  "handleOptionChange k v prev = prev(k \<mapsto> v)"

datatype ui_error = NoFileSelected | TypeError

text \<open>
  The form data \<^verbatim>\<open>processFile\<close> builds: the file, then the seven options, each through
  \<^verbatim>\<open>toString()\<close>. A TypeError thrown by \<^verbatim>\<open>toString\<close> on a missing option is caught by
  the surrounding \<^verbatim>\<open>try\<close> and nothing is sent.
\<close>

definition form_keys :: "string list" where
  "form_keys =
     [''include_formulas'', ''include_cells'', ''include_comments'', ''include_named_ranges'',
      ''include_excel_tables'', ''include_inferred_sections'', ''chunk_max_cells'']"

fun append_options :: "jsobj \<Rightarrow> string list \<Rightarrow> form_data \<Rightarrow> ui_error + form_data" where
  "append_options opts [] fd = Inr fd"
| "append_options opts (k # ks) fd =
     (case js_toString (js_get opts k) of
        None \<Rightarrow> Inl TypeError
      | Some s \<Rightarrow> append_options opts ks (fd @ [(k, s)]))"

definition build_form :: "app_state \<Rightarrow> ui_error + form_data" where
  "build_form st =
     (case selectedFile st of
        None \<Rightarrow> Inl NoFileSelected
      | Some f \<Rightarrow> append_options (options st) form_keys [(''file'', f)])"

definition processFile :: "app_state \<Rightarrow> app_state" where
  "processFile st =
     (case build_form st of
        Inl e \<Rightarrow> st
      | Inr fd \<Rightarrow> st\<lparr>sent := sent st @ [fd]\<rparr>)"

text \<open>
  What the user can do: pick or remove a file, choose the output mode, click the
  \<open>i\<close>-th toggle button, move the slider towards \<open>r\<close>, press the convert button. Each
  event is handled on the state that the previous one left (the panel is rendered again
  before the next event). The remaining state of \<^verbatim>\<open>App\<close> (progress flag, result, error
  and status message) has no influence on the options or on the form data and is left
  out; so is the reply of the server.
\<close>

datatype event =
    SelectFile "string option"
  | SetOutputMode output_mode
  | ClickOption nat
  | Slide int
  | Convert

fun step :: "app_state \<Rightarrow> event \<Rightarrow> app_state" where
  "step st (SelectFile f) = st\<lparr>selectedFile := f\<rparr>"
| "step st (SetOutputMode m) = st\<lparr>outputMode := m\<rparr>"
| "step st (ClickOption i) =
     (if i < length optionsList
      then let k = key (optionsList ! i)
           in st\<lparr>options := handleOptionChange k (js_not (js_get (options st) k)) (options st)\<rparr>
      else st)"
| "step st (Slide r) =
     st\<lparr>options :=
          handleOptionChange ''chunk_max_cells'' (parseInt (target_value chunk_slider r)) (options st)\<rparr>"
| "step st Convert = processFile st"

definition run :: "event list \<Rightarrow> app_state" where
  "run evs = foldl step initial_state evs"

text \<open>Whether an event is a move of the slider.\<close>

fun is_slide :: "event \<Rightarrow> bool" where
  "is_slide (Slide r) = True"
| "is_slide e = False"

subsection \<open>The default of the request handler\<close>

datatype config_error = ConfigurationError

text \<open>
  Modelled from the spec: how the request handler of \<^verbatim>\<open>POST /api/convert\<close> settles
  \<^verbatim>\<open>chunk_max_cells\<close>; the handler (\<^verbatim>\<open>api/convert.py\<close>, \<^verbatim>\<open>backend/main.py\<close>) is not among
  the sources. Specification, section 4.6: "positive integer, caller-supplied, default
  400 [...] values \<open>\<le>\<close> 0 are a configuration error"; \<^verbatim>\<open>README.md\<close>, "API Usage":
  "\<^verbatim>\<open>chunk_max_cells\<close>: integer (default: 400)". The argument is the integer that the
  caller supplied, if any.
\<close>

definition configured_chunk_max_cells :: "int option \<Rightarrow> config_error + int" where
  "configured_chunk_max_cells supplied =
     (case supplied of
        None \<Rightarrow> Inr 400
      | Some n \<Rightarrow> if n \<le> 0 then Inl ConfigurationError else Inr n)"

subsection \<open>Predicates on the options\<close>

fun is_bool :: "jsval \<Rightarrow> bool" where
  "is_bool (JBool b) = True"
| "is_bool v = False"

fun in_slider_range :: "jsval \<Rightarrow> bool" where
  "in_slider_range (JNum n) = (100 \<le> n \<and> n \<le> 2000 \<and> (n - 100) mod 50 = 0)"
| "in_slider_range v = False"

text \<open>
  The options object is well formed: \<^verbatim>\<open>chunk_max_cells\<close> is a stop of the slider and
  each toggle of \<open>optionsList\<close> is a boolean.
\<close>

definition options_ok :: "jsobj \<Rightarrow> bool" where
  "options_ok opts =
     (in_slider_range (js_get opts ''chunk_max_cells'')
      \<and> list_all (\<lambda>e. is_bool (js_get opts (key e))) optionsList)"

text \<open>The \<^verbatim>\<open>chunk_max_cells\<close> field of a posted form, read back as a number.\<close>

definition submitted_chunk_max_cells :: "form_data \<Rightarrow> jsval" where
  "submitted_chunk_max_cells fd =
     (case map_of fd ''chunk_max_cells'' of None \<Rightarrow> JUndefined | Some s \<Rightarrow> parseInt s)"

text \<open>
  A posted form is well formed: its \<^verbatim>\<open>chunk_max_cells\<close> field is the decimal string of a
  stop of the slider.
\<close>

definition request_ok :: "form_data \<Rightarrow> bool" where
  "request_ok fd =
     (in_slider_range (submitted_chunk_max_cells fd)
      \<and> map_of fd ''chunk_max_cells'' = js_toString (submitted_chunk_max_cells fd))"

text \<open>
  The invariant of the application state: the options are well formed and so is every
  request posted so far.
\<close>

definition state_ok :: "app_state \<Rightarrow> bool" where
  "state_ok st = (options_ok (options st) \<and> list_all request_ok (sent st))"

section \<open>Decimal strings and \<^verbatim>\<open>parseInt\<close>\<close>

lemma dec_digits_acc: "dec_digits n acc = dec_digits n [] @ acc"
proof (induction n arbitrary: acc rule: less_induct)
  case (less n)
  show ?case
  proof (cases "n < 10")
    case True
    then show ?thesis by (simp add: dec_digits.simps)
  next
    case False
    then have lt: "n div 10 < n" by simp
    have "dec_digits n acc = dec_digits (n div 10) (n mod 10 # acc)"
      using False by (subst dec_digits.simps) simp
    also have "\<dots> = dec_digits (n div 10) [] @ (n mod 10 # acc)"
      using less.IH [OF lt] .
    finally have a: "dec_digits n acc = dec_digits (n div 10) [] @ (n mod 10 # acc)" .
    have "dec_digits n [] = dec_digits (n div 10) [n mod 10]"
      using False by (subst dec_digits.simps) simp
    also have "\<dots> = dec_digits (n div 10) [] @ [n mod 10]"
      using less.IH [OF lt] .
    finally show ?thesis using a by simp
  qed
qed

lemma dec_digits_small: "n < 10 \<Longrightarrow> dec_digits n [] = [n]"
  by (simp add: dec_digits.simps)

lemma dec_digits_big: "\<not> n < 10 \<Longrightarrow> dec_digits n [] = dec_digits (n div 10) [] @ [n mod 10]"
  by (subst dec_digits.simps, simp, subst dec_digits_acc, simp)

lemma dec_digits_lt10: "d \<in> set (dec_digits n []) \<Longrightarrow> d < 10"
proof (induction n arbitrary: d rule: less_induct)
  case (less n)
  show ?case
  proof (cases "n < 10")
    case True
    with less.prems show ?thesis by (simp add: dec_digits_small)
  next
    case False
    then have lt: "n div 10 < n" by simp
    from less.prems False have "d \<in> set (dec_digits (n div 10) []) \<or> d = n mod 10"
      by (auto simp: dec_digits_big)
    then show ?thesis using less.IH [OF lt] by auto
  qed
qed

lemma dec_digits_nonempty: "dec_digits n [] \<noteq> []"
  by (cases "n < 10") (simp_all add: dec_digits_small dec_digits_big)

lemma dec_digits_value: "foldl (\<lambda>a d. a * 10 + d) 0 (dec_digits n []) = n"
proof (induction n rule: less_induct)
  case (less n)
  show ?case
  proof (cases "n < 10")
    case True
    then show ?thesis by (simp add: dec_digits_small)
  next
    case False
    then have lt: "n div 10 < n" by simp
    show ?thesis using False less.IH [OF lt] by (simp add: dec_digits_big)
  qed
qed

lemma digit_val_digit_char: "d < 10 \<Longrightarrow> digit_val (digit_char d) = Some d"
  by (simp add: digit_val_def digit_char_def Let_def)


lemma digit_char_plain:
  assumes "d < 10"
  shows "\<not> is_ws (digit_char d)" "digit_char d \<noteq> CHR ''-''" "digit_char d \<noteq> CHR ''+''"
    "digit_char d \<noteq> CHR ''x''" "digit_char d \<noteq> CHR ''X''"
proof -
  have k: "(of_char (digit_char d) :: nat) = 48 + d"
    using assms by (simp add: digit_char_def)
  have ne: "digit_char d \<noteq> c" if "(of_char c :: nat) < 48 \<or> 57 < (of_char c :: nat)" for c
    using that k assms by auto
  show "\<not> is_ws (digit_char d)"
    unfolding is_ws_def by (auto dest!: sym [of _ "digit_char d"] simp: ne)
  show "digit_char d \<noteq> CHR ''-''" by (rule ne) simp
  show "digit_char d \<noteq> CHR ''+''" by (rule ne) simp
  show "digit_char d \<noteq> CHR ''x''" by (rule ne) simp
  show "digit_char d \<noteq> CHR ''X''" by (rule ne) simp
qed

lemma radix_digit_digit_char: "d < 10 \<Longrightarrow> is_radix_digit 10 (digit_char d)"
  by (simp add: is_radix_digit_def digit_val_digit_char)

lemma radix_value_digits:
  "\<forall>d \<in> set ds. d < 10 \<Longrightarrow>
   foldl (\<lambda>a c. a * 10 + the (digit_val c)) a0 (map digit_char ds) = foldl (\<lambda>a d. a * 10 + d) a0 ds"
  by (induction ds arbitrary: a0) (simp_all add: digit_val_digit_char)

lemma radix_value_show_nat: "radix_value 10 (show_nat n) = n"
  unfolding radix_value_def show_nat_def
  using radix_value_digits [of "dec_digits n []" 0] dec_digits_lt10 [of _ n]
  by (simp add: dec_digits_value)

lemma parseInt_digits:
  assumes "ds \<noteq> []" and "\<forall>d \<in> set ds. d < 10"
  shows "parseInt (map digit_char ds) = JNum (int (radix_value 10 (map digit_char ds)))"
proof -
  obtain d ds' where ds: "ds = d # ds'" using assms(1) by (cases ds) auto
  with assms(2) have d: "d < 10" and ds': "\<forall>e \<in> set ds'. e < 10" by auto
  let ?s = "map digit_char ds"
  have s: "?s = digit_char d # map digit_char ds'" by (simp add: ds)
  have 1: "dropWhile is_ws ?s = ?s"
    by (simp add: s digit_char_plain [OF d])
  have 2: "strip_sign ?s = (False, ?s)"
    by (simp add: s digit_char_plain [OF d])
  have 3: "strip_radix_prefix ?s = (10, ?s)"
  proof (cases ds')
    case Nil
    then show ?thesis by (simp add: s)
  next
    case (Cons e es)
    with ds' have "e < 10" by simp
    then show ?thesis by (simp add: s Cons digit_char_plain)
  qed
  have 4: "takeWhile (is_radix_digit 10) ?s = ?s"
    using assms(2) by (simp add: radix_digit_digit_char)
  show ?thesis
    unfolding parseInt_def by (simp add: 1 2 3 4 assms(1))
qed

lemma parseInt_show_nat: "parseInt (show_nat n) = JNum (int n)"
proof -
  have "parseInt (show_nat n) = JNum (int (radix_value 10 (show_nat n)))"
    unfolding show_nat_def
    by (rule parseInt_digits) (auto simp: dec_digits_nonempty dest: dec_digits_lt10)
  then show ?thesis by (simp add: radix_value_show_nat)
qed

section \<open>The slider and the options invariant\<close>

lemma range_value_chunk_slider:
  "100 \<le> range_value chunk_slider r \<and> range_value chunk_slider r \<le> 2000
   \<and> (range_value chunk_slider r - 100) mod 50 = 0"
  by (auto simp: range_value_def chunk_slider_def Let_def)

lemma parseInt_target_value:
  "parseInt (target_value chunk_slider r) = JNum (range_value chunk_slider r)"
  using range_value_chunk_slider [of r]
  by (simp add: target_value_def number_toString_def parseInt_show_nat)

lemma optionsList_keys: "e \<in> set optionsList \<Longrightarrow> key e \<noteq> ''chunk_max_cells''"
  by (auto simp: optionsList_def)

lemma is_bool_js_not: "is_bool (js_not v)"
  by (cases v) simp_all

lemma options_ok_initial: "options_ok initial_options"
  by (simp add: options_ok_def initial_options_def js_get_def optionsList_def)

lemma options_ok_toggle:
  assumes "options_ok opts" and "i < length optionsList"
  shows "options_ok (handleOptionChange (key (optionsList ! i)) (js_not v) opts)"
proof -
  let ?k = "key (optionsList ! i)"
  let ?opts = "handleOptionChange ?k (js_not v) opts"
  have k: "?k \<noteq> ''chunk_max_cells''"
    using assms(2) by (simp add: optionsList_keys)
  then have "js_get ?opts ''chunk_max_cells'' = js_get opts ''chunk_max_cells''"
    by (simp add: handleOptionChange_def js_get_def)
  moreover have "is_bool (js_get ?opts (key e))" if "is_bool (js_get opts (key e))" for e :: option_entry
    using that by (simp add: handleOptionChange_def js_get_def is_bool_js_not)
  ultimately show ?thesis
    using assms(1) by (auto simp: options_ok_def list_all_iff)
qed

lemma options_ok_slide:
  assumes "options_ok opts"
  shows "options_ok
    (handleOptionChange ''chunk_max_cells'' (parseInt (target_value chunk_slider r)) opts)"
proof -
  let ?opts = "handleOptionChange ''chunk_max_cells'' (parseInt (target_value chunk_slider r)) opts"
  have "js_get ?opts ''chunk_max_cells'' = JNum (range_value chunk_slider r)"
    by (simp add: handleOptionChange_def js_get_def parseInt_target_value)
  then have "in_slider_range (js_get ?opts ''chunk_max_cells'')"
    using range_value_chunk_slider [of r] by simp
  moreover have "js_get ?opts (key e) = js_get opts (key e)" if "e \<in> set optionsList" for e :: option_entry
    using optionsList_keys [OF that] by (simp add: handleOptionChange_def js_get_def)
  ultimately show ?thesis
    using assms by (simp add: options_ok_def list_all_iff)
qed

section \<open>The posted form\<close>

lemma append_options_Inr:
  "append_options opts ks fd = Inr fd' \<Longrightarrow>
   fd' = fd @ map (\<lambda>k. (k, the (js_toString (js_get opts k)))) ks"
proof (induction ks arbitrary: fd)
  case Nil
  then show ?case by simp
next
  case (Cons k ks)
  from Cons.prems obtain s where s: "js_toString (js_get opts k) = Some s"
    and rest: "append_options opts ks (fd @ [(k, s)]) = Inr fd'"
    by (auto split: option.splits)
  from Cons.IH [OF rest] s show ?case by simp
qed

lemma append_options_total:
  "\<forall>k \<in> set ks. js_get opts k \<noteq> JUndefined \<Longrightarrow> \<exists>fd'. append_options opts ks fd = Inr fd'"
proof (induction ks arbitrary: fd)
  case Nil
  then show ?case by simp
next
  case (Cons k ks)
  then obtain s where "js_toString (js_get opts k) = Some s"
    by (cases "js_get opts k") auto
  with Cons show ?case by simp
qed

lemma in_slider_range_cases:
  "in_slider_range v \<Longrightarrow> \<exists>n. v = JNum n \<and> 100 \<le> n \<and> n \<le> 2000 \<and> (n - 100) mod 50 = 0"
  by (cases v) simp_all

lemma is_bool_cases: "is_bool v \<Longrightarrow> \<exists>b. v = JBool b"
  by (cases v) simp_all

lemma form_keys_optionsList: "form_keys = map key optionsList @ [''chunk_max_cells'']"
  by (simp add: form_keys_def optionsList_def)

lemma options_ok_defined:
  assumes "options_ok opts" and "k \<in> set form_keys"
  shows "js_get opts k \<noteq> JUndefined"
proof -
  from assms(2) consider "k = ''chunk_max_cells''" | e where "e \<in> set optionsList" "k = key e"
    unfolding form_keys_optionsList by auto
  then show ?thesis
  proof cases
    case 1
    from assms(1) have "in_slider_range (js_get opts ''chunk_max_cells'')"
      by (simp add: options_ok_def)
    with 1 show ?thesis by (auto dest: in_slider_range_cases)
  next
    case 2
    from assms(1) 2 have "is_bool (js_get opts k)"
      by (simp add: options_ok_def list_all_iff)
    then show ?thesis by (auto dest: is_bool_cases)
  qed
qed

lemma parseInt_number_toString: "0 \<le> n \<Longrightarrow> parseInt (number_toString n) = JNum n"
  by (simp add: number_toString_def parseInt_show_nat)

lemma build_form_chunk:
  assumes "build_form st = Inr fd"
  shows "map_of fd ''chunk_max_cells''
    = Some (the (js_toString (js_get (options st) ''chunk_max_cells'')))"
proof -
  from assms obtain f where
    "append_options (options st) form_keys [(''file'', f)] = Inr fd"
    by (auto simp: build_form_def split: option.splits)
  from append_options_Inr [OF this] show ?thesis
    by (simp add: form_keys_def)
qed


lemma build_form_request_ok:
  assumes "build_form st = Inr fd" and "options_ok (options st)"
  shows "request_ok fd"
proof -
  from assms(2) obtain n where n: "js_get (options st) ''chunk_max_cells'' = JNum n"
    and r: "100 \<le> n" "n \<le> 2000" "(n - 100) mod 50 = 0"
    by (auto simp: options_ok_def dest: in_slider_range_cases)
  have fd: "map_of fd ''chunk_max_cells'' = Some (number_toString n)"
    using build_form_chunk [OF assms(1)] n by simp
  then have "submitted_chunk_max_cells fd = JNum n"
    using r by (simp add: submitted_chunk_max_cells_def parseInt_number_toString)
  with r fd show ?thesis by (simp add: request_ok_def)
qed

lemma request_ok_cases:
  assumes "request_ok fd"
  shows "\<exists>n. map_of fd ''chunk_max_cells'' = Some (number_toString n)
    \<and> submitted_chunk_max_cells fd = JNum n \<and> 100 \<le> n \<and> n \<le> 2000"
proof -
  from assms obtain n where "submitted_chunk_max_cells fd = JNum n" "100 \<le> n" "n \<le> 2000"
    by (auto simp: request_ok_def dest: in_slider_range_cases)
  with assms show ?thesis by (simp add: request_ok_def)
qed

lemma build_form_total:
  assumes "options_ok (options st)" and "selectedFile st = Some f"
  shows "\<exists>fd. build_form st = Inr fd"
  using assms append_options_total [of form_keys "options st" "[(''file'', f)]"]
  by (auto simp: build_form_def dest: options_ok_defined)

section \<open>Every reachable state is well formed\<close>

lemma processFile_ok: "state_ok st \<Longrightarrow> state_ok (processFile st)"
  by (auto simp: state_ok_def processFile_def build_form_request_ok split: sum.splits)

lemma step_ok: "state_ok st \<Longrightarrow> state_ok (step st ev)"
proof (cases ev)
  case (ClickOption i)
  assume "state_ok st"
  then show ?thesis
    using ClickOption by (auto simp: state_ok_def Let_def options_ok_toggle)
next
  case (Slide r)
  assume "state_ok st"
  then show ?thesis
    using Slide by (simp add: state_ok_def options_ok_slide)
next
  case Convert
  assume "state_ok st"
  then show ?thesis using Convert by (simp add: processFile_ok)
qed (simp_all add: state_ok_def)

lemma foldl_step_ok: "state_ok st \<Longrightarrow> state_ok (foldl step st evs)"
  by (induction evs arbitrary: st) (simp_all add: step_ok)

lemma run_ok: "state_ok (run evs)"
  unfolding run_def
  by (rule foldl_step_ok) (simp add: state_ok_def initial_state_def options_ok_initial)

lemma step_keeps_chunk_max_cells:
  assumes "\<not> is_slide ev"
  shows "js_get (options (step st ev)) ''chunk_max_cells'' = js_get (options st) ''chunk_max_cells''"
proof (cases ev)
  case (ClickOption i)
  show ?thesis
  proof (cases "i < length optionsList")
    case True
    then have "key (optionsList ! i) \<noteq> ''chunk_max_cells''"
      by (simp add: optionsList_keys)
    then show ?thesis
      using ClickOption True by (simp add: Let_def handleOptionChange_def js_get_def)
  next
    case False
    then show ?thesis using ClickOption by simp
  qed
next
  case (Slide r)
  with assms show ?thesis by simp
next
  case Convert
  then show ?thesis by (simp add: processFile_def split: sum.splits)
qed simp_all

lemma foldl_step_keeps_chunk_max_cells:
  "list_all (\<lambda>e. \<not> is_slide e) evs \<Longrightarrow>
   js_get (options (foldl step st evs)) ''chunk_max_cells'' = js_get (options st) ''chunk_max_cells''"
  by (induction evs arbitrary: st) (simp_all add: step_keeps_chunk_max_cells)


section \<open>Defaults of the conversion request\<close>

lemma show_nat_400: "show_nat 400 = ''400''"
  by code_simp

lemma show_nat_800: "show_nat 800 = ''800''"
  by code_simp

lemma show_nat_100: "show_nat 100 = ''100''"
  by code_simp

lemma build_form_initial:
  "build_form (initial_state\<lparr>selectedFile := Some f\<rparr>) =
     Inr [(''file'', f), (''include_formulas'', ''true''), (''include_cells'', ''true''),
          (''include_comments'', ''true''), (''include_named_ranges'', ''true''),
          (''include_excel_tables'', ''true''), (''include_inferred_sections'', ''true''),
          (''chunk_max_cells'', ''400'')]"
  by (simp add: build_form_def initial_state_def initial_options_def form_keys_def
      js_get_def number_toString_def show_nat_400)

lemma step_sent_400:
  assumes "js_get (options st) ''chunk_max_cells'' = JNum 400"
    and "list_all (\<lambda>fd. map_of fd ''chunk_max_cells'' = Some ''400'') (sent st)"
    and "\<not> is_slide ev"
  shows "list_all (\<lambda>fd. map_of fd ''chunk_max_cells'' = Some ''400'') (sent (step st ev))"
proof (cases ev)
  case Convert
  show ?thesis
  proof (cases "build_form st")
    case (Inl e)
    with assms(2) Convert show ?thesis by (simp add: processFile_def)
  next
    case (Inr fd)
    from build_form_chunk [OF Inr] assms(1)
    have "map_of fd ''chunk_max_cells'' = Some ''400''"
      by (simp add: number_toString_def show_nat_400)
    with assms(2) Convert Inr show ?thesis by (simp add: processFile_def)
  qed
next
  case (Slide r)
  with assms(3) show ?thesis by simp
qed (use assms(2) in \<open>simp_all add: Let_def\<close>)

lemma foldl_step_sent_400:
  "list_all (\<lambda>e. \<not> is_slide e) evs \<Longrightarrow>
   js_get (options st) ''chunk_max_cells'' = JNum 400 \<Longrightarrow>
   list_all (\<lambda>fd. map_of fd ''chunk_max_cells'' = Some ''400'') (sent st) \<Longrightarrow>
   list_all (\<lambda>fd. map_of fd ''chunk_max_cells'' = Some ''400'') (sent (foldl step st evs))"
proof (induction evs arbitrary: st)
  case Nil
  then show ?case by simp
next
  case (Cons ev evs)
  from Cons.prems have ev: "\<not> is_slide ev" and evs: "list_all (\<lambda>e. \<not> is_slide e) evs"
    by simp_all
  have "js_get (options (step st ev)) ''chunk_max_cells'' = JNum 400"
    using step_keeps_chunk_max_cells [OF ev] Cons.prems(2) by simp
  moreover have "list_all (\<lambda>fd. map_of fd ''chunk_max_cells'' = Some ''400'') (sent (step st ev))"
    using step_sent_400 [OF Cons.prems(2,3) ev] .
  ultimately show ?case
    using Cons.IH [OF evs] by simp
qed

lemma initial_chunk_max_cells: "js_get initial_options ''chunk_max_cells'' = JNum 400"
  by (simp add: initial_options_def js_get_def)

text \<open>
  As long as the user never moves the slider, the current \<^verbatim>\<open>chunk_max_cells\<close> and the
  one of every posted request is 400.
\<close>

lemma untouched_slider_posts_400:
  assumes "list_all (\<lambda>e. \<not> is_slide e) evs"
  shows "js_get (options (run evs)) ''chunk_max_cells'' = JNum 400
    \<and> list_all (\<lambda>fd. map_of fd ''chunk_max_cells'' = Some ''400'') (sent (run evs))"
proof -
  have o: "js_get (options initial_state) ''chunk_max_cells'' = JNum 400"
    by (simp add: initial_state_def initial_chunk_max_cells)
  have s: "list_all (\<lambda>fd. map_of fd ''chunk_max_cells'' = Some ''400'') (sent initial_state)"
    by (simp add: initial_state_def)
  show ?thesis
    unfolding run_def
    using foldl_step_keeps_chunk_max_cells [OF assms, of initial_state] o
      foldl_step_sent_400 [OF assms o s]
    by simp
qed

text \<open>
  Claim C8. When the caller supplies no \<^verbatim>\<open>chunk_max_cells\<close>, the request handler (as the
  specification and \<^verbatim>\<open>README.md\<close> describe it) configures 400. The frontend starts with
  \<^verbatim>\<open>chunk_max_cells = 400\<close> and all six \<^verbatim>\<open>include_*\<close> toggles enabled, and the request
  it builds from this initial state carries \<^verbatim>\<open>chunk_max_cells\<close> as \<^verbatim>\<open>400\<close> and every toggle
  as \<^verbatim>\<open>true\<close>; 400 supplied by the frontend configures what no value would.
\<close>

theorem default_chunk_max_cells_400:
  "configured_chunk_max_cells None = Inr 400
   \<and> js_get initial_options ''chunk_max_cells'' = JNum 400
   \<and> map (\<lambda>e. (key e, js_get initial_options (key e))) optionsList =
       [(''include_formulas'', JBool True), (''include_cells'', JBool True),
        (''include_comments'', JBool True), (''include_named_ranges'', JBool True),
        (''include_excel_tables'', JBool True), (''include_inferred_sections'', JBool True)]
   \<and> build_form (initial_state\<lparr>selectedFile := Some f\<rparr>) =
       Inr [(''file'', f), (''include_formulas'', ''true''), (''include_cells'', ''true''),
            (''include_comments'', ''true''), (''include_named_ranges'', ''true''),
            (''include_excel_tables'', ''true''), (''include_inferred_sections'', ''true''),
            (''chunk_max_cells'', number_toString 400)]
   \<and> number_toString 400 = ''400''
   \<and> configured_chunk_max_cells (Some 400) = configured_chunk_max_cells None"
proof -
  have handler: "configured_chunk_max_cells None = Inr 400"
    by (simp add: configured_chunk_max_cells_def)
  have toggles: "map (\<lambda>e. (key e, js_get initial_options (key e))) optionsList =
       [(''include_formulas'', JBool True), (''include_cells'', JBool True),
        (''include_comments'', JBool True), (''include_named_ranges'', JBool True),
        (''include_excel_tables'', JBool True), (''include_inferred_sections'', JBool True)]"
    by (simp add: optionsList_def initial_options_def js_get_def)
  have str: "number_toString 400 = ''400''"
    by (simp add: number_toString_def show_nat_400)
  have same: "configured_chunk_max_cells (Some 400) = configured_chunk_max_cells None"
    by (simp add: configured_chunk_max_cells_def)
  show ?thesis
    using handler initial_chunk_max_cells toggles build_form_initial [of f] str same
    by simp
qed

section \<open>The chunk size never leaves the slider's range\<close>

text \<open>
  Claim C10. Only a move of the slider changes \<^verbatim>\<open>chunk_max_cells\<close>: every other event
  leaves it as it is. After any sequence of events the current value is a number in
  \<open>[100, 2000]\<close>; every request posted so far carries the decimal string of a number in
  \<open>[100, 2000]\<close>, so never a value \<open>\<le> 0\<close>; and whenever a file is selected, building the
  form succeeds (no \<^verbatim>\<open>toString\<close> is called on a missing option).
\<close>

theorem chunk_max_cells_confined_to_slider:
  "(\<not> is_slide ev \<longrightarrow>
      js_get (options (step st ev)) ''chunk_max_cells'' = js_get (options st) ''chunk_max_cells'')
   \<and> (\<exists>n. js_get (options (run evs)) ''chunk_max_cells'' = JNum n
        \<and> 100 \<le> n \<and> n \<le> 2000 \<and> 0 < n)
   \<and> (\<forall>fd \<in> set (sent (run evs)).
        \<exists>n. map_of fd ''chunk_max_cells'' = Some (number_toString n)
          \<and> submitted_chunk_max_cells fd = JNum n \<and> 100 \<le> n \<and> n \<le> 2000 \<and> 0 < n)
   \<and> (selectedFile (run evs) \<noteq> None \<longrightarrow> (\<exists>fd. build_form (run evs) = Inr fd))"
proof -
  have ok: "options_ok (options (run evs))" and sent: "list_all request_ok (sent (run evs))"
    using run_ok [of evs] by (simp_all add: state_ok_def)
  from ok obtain n where "js_get (options (run evs)) ''chunk_max_cells'' = JNum n"
    "100 \<le> n" "n \<le> 2000"
    by (auto simp: options_ok_def dest: in_slider_range_cases)
  then have current: "\<exists>n. js_get (options (run evs)) ''chunk_max_cells'' = JNum n
        \<and> 100 \<le> n \<and> n \<le> 2000 \<and> 0 < n"
    by auto
  have posted: "\<exists>n. map_of fd ''chunk_max_cells'' = Some (number_toString n)
          \<and> submitted_chunk_max_cells fd = JNum n \<and> 100 \<le> n \<and> n \<le> 2000 \<and> 0 < n"
    if "fd \<in> set (sent (run evs))" for fd
  proof -
    from sent that have "request_ok fd" by (simp add: list_all_iff)
    from request_ok_cases [OF this] show ?thesis by auto
  qed
  have built: "\<exists>fd. build_form (run evs) = Inr fd" if "selectedFile (run evs) \<noteq> None"
    using that build_form_total [OF ok] by auto
  show ?thesis
    using step_keeps_chunk_max_cells [of ev st] current posted built by blast
qed

text \<open>
  The theorem at a concrete session: the slider is moved towards 777 (the browser
  settles on 800) and the request is posted, then it is dragged below the minimum
  (100) and the request is posted again.
\<close>

theorem chunk_max_cells_confined_to_slider_witness:
  "\<not> is_slide (ClickOption 2)
   \<and> js_get (options (step initial_state (ClickOption 2))) ''chunk_max_cells'' = JNum 400
   \<and> map (\<lambda>fd. map_of fd ''chunk_max_cells'')
        (sent (run [SelectFile (Some ''book.xlsx''), Slide 777, Convert, Slide (- 3), Convert]))
       = [Some ''800'', Some ''100'']
   \<and> (\<exists>n. js_get (options
          (run [SelectFile (Some ''book.xlsx''), Slide 777, Convert, Slide (- 3), Convert]))
          ''chunk_max_cells'' = JNum n \<and> 100 \<le> n \<and> n \<le> 2000 \<and> 0 < n)
   \<and> selectedFile (run [SelectFile (Some ''book.xlsx''), Slide 777, Convert, Slide (- 3), Convert])
       \<noteq> None
   \<and> (\<exists>fd. build_form
          (run [SelectFile (Some ''book.xlsx''), Slide 777, Convert, Slide (- 3), Convert]) = Inr fd)"
proof -
  let ?evs = "[SelectFile (Some ''book.xlsx''), Slide 777, Convert, Slide (- 3), Convert]"
  have r1: "range_value chunk_slider 777 = 800" and r2: "range_value chunk_slider (- 3) = 100"
    by (simp_all add: range_value_def chunk_slider_def)
  have click: "\<not> is_slide (ClickOption 2)" by simp
  have posted: "map (\<lambda>fd. map_of fd ''chunk_max_cells'') (sent (run ?evs))
      = [Some ''800'', Some ''100'']"
    by (simp add: run_def initial_state_def initial_options_def parseInt_target_value r1 r2
        handleOptionChange_def js_get_def processFile_def build_form_def form_keys_def
        number_toString_def show_nat_800 show_nat_100)
  have chosen: "selectedFile (run ?evs) \<noteq> None"
    by (simp add: run_def initial_state_def processFile_def split: sum.splits)
  from chunk_max_cells_confined_to_slider [of "ClickOption 2" initial_state ?evs] click posted chosen
  show ?thesis
    by (simp add: initial_state_def initial_chunk_max_cells)
qed

section \<open>Each control changes its own option only\<close>

lemma click_changes_one_option:
  assumes "i < length optionsList" and "k \<noteq> key (optionsList ! i)"
  shows "js_get (options (step st (ClickOption i))) k = js_get (options st) k"
  using assms by (simp add: Let_def handleOptionChange_def js_get_def)

lemma click_flips_option:
  assumes "i < length optionsList"
  shows "js_get (options (step st (ClickOption i))) (key (optionsList ! i))
    = js_not (js_get (options st) (key (optionsList ! i)))"
  using assms by (simp add: Let_def handleOptionChange_def js_get_def)

lemma slide_changes_chunk_max_cells_only:
  assumes "k \<noteq> ''chunk_max_cells''"
  shows "js_get (options (step st (Slide r))) k = js_get (options st) k"
  using assms by (simp add: handleOptionChange_def js_get_def)

end
